theory Spec2Isabelle
  imports Main
begin

section \<open>The authentication controller of creative-arts-api\<close>

text \<open>
  A shallow embedding of \<^verbatim>\<open>src/controllers/authentication.js\<close>. Each exported handler
  is a function from the collaborators and configuration (\<open>env\<close>), the user collection
  before the request and the request, to an \<open>outcome\<close>: the user collection afterwards, the
  calls made to the collaborators in order, the errors handed to \<^verbatim>\<open>next\<close> in order,
  and the response written to \<^verbatim>\<open>res\<close>, if any. The database is assumed to be
  reachable: a query or a write fails only where validation rejects the document.
\<close>

subsection \<open>User documents\<close>

text \<open>A missing or \<^verbatim>\<open>undefined\<close> field is \<open>None\<close>. \<open>password\<close> holds the stored hash.\<close>

record user =
  uid :: nat
  name :: "string option"
  email :: "string option"
  password :: "string option"
  role :: "string option"
  passwordResetToken :: "string option"
  passwordResetExpire :: "nat option"

type_synonym store = "user list"

subsection \<open>Requests, responses, errors\<close>

text \<open>
  \<^verbatim>\<open>req.body\<close> is a dictionary of the submitted fields, \<^verbatim>\<open>req.params.resettoken\<close> the
  route parameter, \<^verbatim>\<open>req.user\<close> the document that the authentication middleware attached
  on a private route, \<^verbatim>\<open>req.get('host')\<close> the Host header.
\<close>

record request =
  body :: "string \<rightharpoonup> string"
  params_resettoken :: string
  req_user :: "user option"
  protocol :: string
  host :: "string option"

text \<open>
  \<^verbatim>\<open>new ErrorResponse(message, statusCode)\<close>; the status code is \<open>None\<close> where the
  constructor is called with one argument. \<open>TypeError\<close> is what JavaScript throws on a
  property access on \<^verbatim>\<open>null\<close>; \<open>Thrown\<close> is an exception raised by a collaborator.
\<close>

datatype error = ErrorResponse string "nat option" | TypeError | Thrown string

text \<open>
  A JavaScript \<^verbatim>\<open>Date\<close>: a whole number of milliseconds since the epoch, or the
  \<^verbatim>\<open>Invalid Date\<close> that \<^verbatim>\<open>new Date(x)\<close> gives for a \<^verbatim>\<open>NaN\<close> or for an instant beyond
  8640000000000000 milliseconds.
\<close>

datatype date = Invalid_Date | Date nat

record cookie_options =
  expires :: date
  httpOnly :: bool
  secure :: "bool option"

datatype payload = Token string | Data_string string | Data_user "user option" | Data_empty

record response =
  status :: nat
  cookies :: "(string \<times> string \<times> cookie_options) list"
  clearedCookies :: "string list"
  success :: bool
  json :: payload

record mail =
  mail_email :: "string option"
  subject :: string
  message :: string

record new_user =
  c_name :: "string option"
  c_email :: "string option"
  c_password :: "string option"
  c_role :: "string option"

datatype call =
    Create new_user
  | FindOne_email "string option"
  | FindOne_resetToken string nat
  | FindById nat
  | FindByIdAndUpdate nat "string option" "string option"
  | MatchPassword nat "string option"
  | GetResetPasswordToken nat
  | Save user bool
  | SendEmail mail

record outcome =
  store :: store
  calls :: "call list"
  nexts :: "error list"
  response :: "response option"
  thrown :: "error option"

subsection \<open>Collaborators and configuration\<close>

text \<open>
  What the controller takes from outside the file, as parameters. The clock
  (\<^verbatim>\<open>Date.now()\<close>, in milliseconds) is read at most twice in a request: \<open>now\<close> is the
  reading of the reset-token lookup and of the reset-token generation, \<open>now_issue\<close> the
  reading that \<^verbatim>\<open>sendTokenResponse\<close> makes when it builds the cookie. The two environment
  variables are strings or unset. \<open>dateOfOther\<close> stands for what
  \<^verbatim>\<open>new Date(Date.now() + s * 24 * 60 * 60 * 1000)\<close> is at a given clock reading for a
  string \<open>s\<close> that is not a plain decimal numeral and yet holds only characters that the
  string of a number can hold (a sign, a fraction, an exponent, blanks): the general
  string-to-number coercion and its floating-point arithmetic are not modelled. Then the
  SHA-256 hex digest of
  \<^verbatim>\<open>crypto\<close>, and the methods of the User model and the mail utility, none of which is
  part of the controller: the hash applied to a password on save, the schema's validation,
  \<^verbatim>\<open>matchPassword\<close> (which may throw), \<^verbatim>\<open>getSignedJwtToken\<close>, the random plaintext of
  a reset token and its validity window, and whether \<^verbatim>\<open>sendEmail\<close> delivers a mail.
\<close>

record env =
  now :: nat
  now_issue :: nat
  NODE_ENV :: "string option"
  JWT_COOKIE_EXPIRE :: "string option"
  dateOfOther :: "nat \<Rightarrow> string \<Rightarrow> date"
  sha256hex :: "string \<Rightarrow> string"
  hashPassword :: "string \<Rightarrow> string"
  validates :: "user \<Rightarrow> bool"
  matchPassword :: "user \<Rightarrow> string option \<Rightarrow> string + bool"
  getSignedJwtToken :: "user \<Rightarrow> string"
  randomToken :: string
  resetWindow :: nat
  sendEmail :: "mail \<Rightarrow> bool"

subsection \<open>The user collection\<close>

definition findOne_email :: "store \<Rightarrow> string option \<Rightarrow> user option" where
  \<comment> \<open>Modelled from the spec: \<^verbatim>\<open>User.findOne({ email })\<close> of the absent User model, the
      first document whose email is the given one.\<close>
  "findOne_email st e = find (\<lambda>u. email u = e) st"

definition findOne_resetToken :: "store \<Rightarrow> string \<Rightarrow> nat \<Rightarrow> user option" where
  \<comment> \<open>Modelled from the spec: \<^verbatim>\<open>User.findOne({ passwordResetToken, passwordResetExpire:
      { $gt: Date.now() } })\<close>, the first document whose stored token hash is the given one
      and whose expiry lies strictly after the given instant.\<close>
  "findOne_resetToken st h t =
     find (\<lambda>u. passwordResetToken u = Some h \<and>
                (case passwordResetExpire u of None \<Rightarrow> False | Some x \<Rightarrow> t < x)) st"

definition findById :: "store \<Rightarrow> nat \<Rightarrow> user option" where
  \<comment> \<open>Modelled from the spec: \<^verbatim>\<open>User.findById(id)\<close>.\<close>
  "findById st i = find (\<lambda>u. uid u = i) st"

definition save_noValidate :: "user \<Rightarrow> store \<Rightarrow> store" where
  \<comment> \<open>Modelled from the spec: \<^verbatim>\<open>user.save({ validateBeforeSave: false })\<close>, which
      persists the document under its identifier, skipping validation.\<close>
  "save_noValidate u st = map (\<lambda>x. if uid x = uid u then u else x) st"

definition save :: "env \<Rightarrow> user \<Rightarrow> store \<Rightarrow> string + (user \<times> store)" where
  \<comment> \<open>Modelled from the spec: \<^verbatim>\<open>user.save()\<close> after the controller assigned a new
      plaintext password: the document is validated, the password is re-hashed by the
      store, and the document is persisted; a rejected document throws.\<close>
  "save env u st =
     (if validates env u
      then (let u' = u\<lparr>password := map_option (hashPassword env) (password u)\<rparr>
            in Inr (u', save_noValidate u' st))
      else Inl ''ValidationError'')"

definition fresh_id :: "store \<Rightarrow> nat" where
  \<comment> \<open>Modelled from the spec: the store gives a new record an identifier that no stored
      record has.\<close>
  "fresh_id st = Suc (fold max (map uid st) 0)"

definition User_create :: "env \<Rightarrow> store \<Rightarrow> new_user \<Rightarrow> string + (user \<times> store)" where
  \<comment> \<open>Modelled from the spec: \<^verbatim>\<open>User.create\<close>, which creates a user record with a
      hashed password and fails with a validation error if the email already exists or
      the document is rejected by validation (required fields missing).\<close>
  "User_create env st f =
     (let u = \<lparr>uid = fresh_id st, name = c_name f, email = c_email f,
               password = c_password f, role = c_role f,
               passwordResetToken = None, passwordResetExpire = None\<rparr>
      in if \<not> validates env u \<or> list_ex (\<lambda>v. email v = email u) st
         then Inl ''ValidationError''
         else (let u' = u\<lparr>password := map_option (hashPassword env) (password u)\<rparr>
               in Inr (u', st @ [u'])))"

definition findByIdAndUpdate ::
  "env \<Rightarrow> store \<Rightarrow> nat \<Rightarrow> string option \<Rightarrow> string option \<Rightarrow> string + (user option \<times> store)" where
  \<comment> \<open>Modelled from the spec: \<^verbatim>\<open>User.findByIdAndUpdate(id, { name, email },
      { new: true, runValidators: true })\<close>, which overwrites name and email on the record
      with validation re-run and returns the updated record.\<close>
  "findByIdAndUpdate env st i n e =
     (case findById st i of
        None \<Rightarrow> Inr (None, st)
      | Some u \<Rightarrow>
          (let u' = u\<lparr>name := n, email := e\<rparr>
           in if validates env u' then Inr (Some u', save_noValidate u' st)
              else Inl ''ValidationError''))"

definition getResetPasswordToken :: "env \<Rightarrow> user \<Rightarrow> string \<times> user" where
  \<comment> \<open>Modelled from the spec: \<^verbatim>\<open>user.getResetPasswordToken()\<close> of the absent User model,
      which generates a single-use reset token, sets on the document the token's one-way
      digest and its expiry, and returns the plaintext.\<close>
  "getResetPasswordToken env u =
     (randomToken env,
      u\<lparr>passwordResetToken := Some (sha256hex env (randomToken env)),
        passwordResetExpire := Some (now env + resetWindow env)\<rparr>)"

subsection \<open>Control flow of a handler\<close>

definition next_err :: "store \<Rightarrow> call list \<Rightarrow> error \<Rightarrow> outcome" where
  \<comment> \<open>\<^verbatim>\<open>return next(err)\<close>\<close>
  "next_err st cs e = \<lparr>store = st, calls = cs, nexts = [e], response = None, thrown = None\<rparr>"

definition throws :: "store \<Rightarrow> call list \<Rightarrow> error \<Rightarrow> outcome" where
  \<comment> \<open>an exception leaves the handler's body\<close>
  "throws st cs e = \<lparr>store = st, calls = cs, nexts = [], response = None, thrown = Some e\<rparr>"

definition responds :: "store \<Rightarrow> call list \<Rightarrow> response \<Rightarrow> outcome" where
  \<comment> \<open>the body writes a response and returns\<close>
  "responds st cs r = \<lparr>store = st, calls = cs, nexts = [], response = Some r, thrown = None\<rparr>"

definition asyncHandler :: "outcome \<Rightarrow> outcome" where
  \<comment> \<open>Modelled from the spec: the absent \<^verbatim>\<open>middleware/asyncHandler\<close>, the wrapping
      dispatcher that catches what the body throws and hands it to \<^verbatim>\<open>next\<close>.\<close>
  "asyncHandler r =
     (case thrown r of
        None \<Rightarrow> r
      | Some e \<Rightarrow> r\<lparr>nexts := nexts r @ [e], thrown := None\<rparr>)"

definition falsy :: "string option \<Rightarrow> bool" where
  \<comment> \<open>JavaScript's \<^verbatim>\<open>!x\<close> on a field that is a string or \<^verbatim>\<open>undefined\<close>\<close>
  "falsy x = (x = None \<or> x = Some [])"

definition str :: "string option \<Rightarrow> string" where
  \<comment> \<open>interpolation into a template literal\<close>
  "str x = (case x of None \<Rightarrow> ''undefined'' | Some s \<Rightarrow> s)"

subsection \<open>The handlers\<close>

definition digit_value :: "char \<Rightarrow> nat option" where
  "digit_value =
     map_of [(CHR ''0'', 0), (CHR ''1'', 1), (CHR ''2'', 2), (CHR ''3'', 3), (CHR ''4'', 4),
             (CHR ''5'', 5), (CHR ''6'', 6), (CHR ''7'', 7), (CHR ''8'', 8), (CHR ''9'', 9)]"

fun decimal_value :: "string \<Rightarrow> nat \<Rightarrow> nat option" where
  "decimal_value [] acc = Some acc"
| "decimal_value (c # cs) acc =
     (case digit_value c of None \<Rightarrow> None | Some d \<Rightarrow> decimal_value cs (10 * acc + d))"

definition decimal_numeral :: "string \<Rightarrow> nat option" where
  \<comment> \<open>the number that a non-empty string of decimal digits denotes\<close>
  "decimal_numeral s = (if s = [] then None else decimal_value s 0)"

definition numeric_char :: "char \<Rightarrow> bool" where
  \<comment> \<open>the characters that a string denoting a number can hold: those of the decimal,
      hexadecimal, octal and binary literals and of \<^verbatim>\<open>Infinity\<close>, the ASCII blanks, and
      any byte outside ASCII (it may belong to a Unicode blank)\<close>
  "numeric_char c =
     (c \<in> set ''0123456789+-.eEInfityxXoObBaAcCdDfF''
      \<or> c \<in> set [CHR 0x09, CHR 0x0A, CHR 0x0B, CHR 0x0C, CHR 0x0D, CHR 0x20]
      \<or> digit7 c)"

definition new_Date :: "nat \<Rightarrow> date" where
  \<comment> \<open>\<^verbatim>\<open>new Date(t)\<close> for a whole number \<open>t\<close> of milliseconds\<close>
  "new_Date t = (if t \<le> 8640000000000000 then Date t else Invalid_Date)"

text \<open>
  \<^verbatim>\<open>process.env.JWT_COOKIE_EXPIRE * 24 * 60 * 60 * 1000\<close> is \<^verbatim>\<open>NaN\<close> when the variable is
  unset, and when its string holds a character that no number's string holds. For a
  decimal numeral \<open>n\<close> the sum with the clock reading is computed exactly
  whenever it is at most 8640000000000000 (every intermediate product is then a whole
  number below \<open>2^53\<close>), and is a number above 8640000000000000 otherwise, rounded or
  not; so \<open>new_Date\<close> of the exact sum is the date that the source builds.
\<close>

definition sendTokenResponse :: "env \<Rightarrow> user \<Rightarrow> nat \<Rightarrow> response" where
  "sendTokenResponse env usr statusCode =
     (let token = getSignedJwtToken env usr;
          options = \<lparr>expires =
                       (case JWT_COOKIE_EXPIRE env of
                          None \<Rightarrow> Invalid_Date
                        | Some s \<Rightarrow>
                            (case decimal_numeral s of
                               Some n \<Rightarrow> new_Date (now_issue env + n * 24 * 60 * 60 * 1000)
                             | None \<Rightarrow>
                                 if list_all numeric_char s
                                 then dateOfOther env (now_issue env) s
                                 else Invalid_Date)),
                     httpOnly = True, secure = None\<rparr>;
          options = (if NODE_ENV env = Some ''production''
                     then options\<lparr>secure := Some True\<rparr> else options)
      in \<lparr>status = statusCode, cookies = [(''token'', token, options)],
          clearedCookies = [], success = True, json = Token token\<rparr>)"

definition register :: "env \<Rightarrow> store \<Rightarrow> request \<Rightarrow> outcome" where
  "register env st req = asyncHandler
     (let f = \<lparr>c_name = body req ''name'', c_email = body req ''email'',
               c_password = body req ''password'', c_role = body req ''role''\<rparr>
      in case User_create env st f of
           Inl x \<Rightarrow> throws st [Create f] (Thrown x)
         | Inr (usr, st') \<Rightarrow> responds st' [Create f] (sendTokenResponse env usr 200))"

definition login :: "env \<Rightarrow> store \<Rightarrow> request \<Rightarrow> outcome" where
  "login env st req = asyncHandler
     (let em = body req ''email''; pw = body req ''password''
      in if falsy em \<or> falsy pw
         then next_err st [] (ErrorResponse ''Please provide both email and password'' None)
         else
           (case findOne_email st em of
              None \<Rightarrow> next_err st [FindOne_email em] (ErrorResponse ''Invalid credentials'' (Some 401))
            | Some usr \<Rightarrow>
                (let cs = [FindOne_email em, MatchPassword (uid usr) pw]
                 in case matchPassword env usr pw of
                      Inl x \<Rightarrow> throws st cs (Thrown x)
                    | Inr isMatch \<Rightarrow>
                        if \<not> isMatch
                        then next_err st cs (ErrorResponse ''Invalid credentials'' (Some 401))
                        else responds st cs (sendTokenResponse env usr 200))))"

definition getMe :: "env \<Rightarrow> store \<Rightarrow> request \<Rightarrow> outcome" where
  "getMe env st req = asyncHandler
     (responds st [] \<lparr>status = 200, cookies = [], clearedCookies = [],
                      success = True, json = Data_user (req_user req)\<rparr>)"

definition logout :: "env \<Rightarrow> store \<Rightarrow> request \<Rightarrow> outcome" where
  "logout env st req = asyncHandler
     (responds st [] \<lparr>status = 200, cookies = [], clearedCookies = [''token''],
                      success = True, json = Data_empty\<rparr>)"

definition reset_message :: "string \<Rightarrow> string" where
  "reset_message resetUrl =
     ''You are receiving this email because you (or someone else)'' @ [CHR 0x0A] @
     ''  have requested to reset your password. Please use the following link via'' @ [CHR 0x0A] @
     ''  Postman or alternative client:'' @ [CHR 0x0A, CHR 0x0A] @ resetUrl"

definition forgotPassword :: "env \<Rightarrow> store \<Rightarrow> request \<Rightarrow> outcome" where
  "forgotPassword env st req = asyncHandler
     (let em = body req ''email''
      in case findOne_email st em of
           None \<Rightarrow> next_err st [FindOne_email em]
                     (ErrorResponse ''No user exists with that email'' (Some 404))
         | Some usr0 \<Rightarrow>
             (let (resetToken, usr) = getResetPasswordToken env usr0;
                  st1 = save_noValidate usr st;
                  resetUrl = protocol req @ ''://'' @ str (host req) @
                             ''/api/v1/auth/resetpassword/'' @ resetToken;
                  m = \<lparr>mail_email = email usr, subject = ''Password reset token'',
                       message = reset_message resetUrl\<rparr>;
                  cs = [FindOne_email em, GetResetPasswordToken (uid usr0), Save usr False,
                        SendEmail m]
              in if sendEmail env m
                 then responds st1 cs \<lparr>status = 200, cookies = [], clearedCookies = [],
                                        success = True, json = Data_string ''Email sent''\<rparr>
                 else
                   (let usr' = usr\<lparr>passwordResetToken := None, passwordResetExpire := None\<rparr>;
                        st2 = save_noValidate usr' st1
                    in next_err st2 (cs @ [Save usr' False])
                         (ErrorResponse ''Email could not be sent'' (Some 500)))))"

definition resetPassword :: "env \<Rightarrow> store \<Rightarrow> request \<Rightarrow> outcome" where
  "resetPassword env st req = asyncHandler
     (let h = sha256hex env (params_resettoken req);
          cs = [FindOne_resetToken h (now env)]
      in case findOne_resetToken st h (now env) of
           None \<Rightarrow>
             \<comment> \<open>\<^verbatim>\<open>next(...)\<close> without \<^verbatim>\<open>return\<close>: the body goes on to
                 \<^verbatim>\<open>user.password = ...\<close> on \<^verbatim>\<open>null\<close>, which throws\<close>
             (next_err st cs (ErrorResponse ''Invalid token'' (Some 400)))\<lparr>thrown := Some TypeError\<rparr>
         | Some usr0 \<Rightarrow>
             (let usr = usr0\<lparr>password := body req ''password'',
                             passwordResetToken := None, passwordResetExpire := None\<rparr>
              in case save env usr st of
                   Inl x \<Rightarrow> throws st (cs @ [Save usr True]) (Thrown x)
                 | Inr (usr', st') \<Rightarrow>
                     responds st' (cs @ [Save usr True]) (sendTokenResponse env usr' 200)))"

definition updateDetails :: "env \<Rightarrow> store \<Rightarrow> request \<Rightarrow> outcome" where
  "updateDetails env st req = asyncHandler
     (case req_user req of
        None \<Rightarrow> throws st [] TypeError
      | Some me \<Rightarrow>
          (let n = body req ''name''; e = body req ''email'';
               cs = [FindByIdAndUpdate (uid me) n e]
           in case findByIdAndUpdate env st (uid me) n e of
                Inl x \<Rightarrow> throws st cs (Thrown x)
              | Inr (usr, st') \<Rightarrow>
                  responds st' cs \<lparr>status = 200, cookies = [], clearedCookies = [],
                                    success = True, json = Data_user usr\<rparr>))"

definition updatePassword :: "env \<Rightarrow> store \<Rightarrow> request \<Rightarrow> outcome" where
  "updatePassword env st req = asyncHandler
     (case req_user req of
        None \<Rightarrow> throws st [] TypeError
      | Some me \<Rightarrow>
          (case findById st (uid me) of
             None \<Rightarrow> throws st [FindById (uid me)] TypeError
           | Some usr0 \<Rightarrow>
               (let cur = body req ''currentPassword'';
                    cs = [FindById (uid me), MatchPassword (uid usr0) cur]
                in case matchPassword env usr0 cur of
                     Inl x \<Rightarrow> throws st cs (Thrown x)
                   | Inr isMatch \<Rightarrow>
                       if \<not> isMatch
                       then next_err st cs (ErrorResponse ''Password is incorrect'' (Some 404))
                       else
                         (let usr = usr0\<lparr>password := body req ''newPassword''\<rparr>
                          in case save env usr st of
                               Inl x \<Rightarrow> throws st (cs @ [Save usr True]) (Thrown x)
                             | Inr (usr', st') \<Rightarrow>
                                 responds st' (cs @ [Save usr True])
                                   (sendTokenResponse env usr' 200)))))"

subsection \<open>The error taxonomy\<close>

definition isAuthError :: "error \<Rightarrow> bool" where
  \<comment> \<open>Modelled from the spec: \<open>AuthError\<close> is a status-coded failure object with status
      401 or 404 (bad credentials or token).\<close>
  "isAuthError e = (case e of ErrorResponse m c \<Rightarrow> c = Some 401 \<or> c = Some 404 | _ \<Rightarrow> False)"

definition isNotFoundError :: "error \<Rightarrow> bool" where
  \<comment> \<open>Modelled from the spec: \<open>NotFoundError\<close> has status 404.\<close>
  "isNotFoundError e = (case e of ErrorResponse m c \<Rightarrow> c = Some 404 | _ \<Rightarrow> False)"

definition isDeliveryError :: "error \<Rightarrow> bool" where
  \<comment> \<open>Modelled from the spec: \<open>DeliveryError\<close> has status 500 (mail transport failure).\<close>
  "isDeliveryError e = (case e of ErrorResponse m c \<Rightarrow> c = Some 500 | _ \<Rightarrow> False)"

definition hasStatusCode :: "error \<Rightarrow> bool" where
  \<comment> \<open>an \<open>ErrorResponse\<close> built with an explicit status code (any other error is not
      built by this file)\<close>
  "hasStatusCode e = (case e of ErrorResponse m c \<Rightarrow> c \<noteq> None | _ \<Rightarrow> True)"

subsection \<open>The reset-token fields of a user document\<close>

definition resetFieldsTogether :: "user \<Rightarrow> bool" where
  \<comment> \<open>the two reset fields are both set or both \<^verbatim>\<open>undefined\<close>\<close>
  "resetFieldsTogether u = ((passwordResetToken u = None) = (passwordResetExpire u = None))"

definition resetFieldsPaired :: "nat \<Rightarrow> user \<Rightarrow> bool" where
  \<comment> \<open>at the instant \<open>t\<close>: a stored token comes with an expiry after \<open>t\<close>, and no
      expiry is stored without a token\<close>
  "resetFieldsPaired t u =
     (case passwordResetToken u of
        None \<Rightarrow> passwordResetExpire u = None
      | Some h \<Rightarrow> (case passwordResetExpire u of None \<Rightarrow> False | Some x \<Rightarrow> t < x))"

definition digestsUnique :: "store \<Rightarrow> bool" where
  \<comment> \<open>a stored token digest belongs to the documents of one user only\<close>
  "digestsUnique st =
     (\<forall>v\<in>set st. \<forall>w\<in>set st.
        passwordResetToken v \<noteq> None \<and> passwordResetToken v = passwordResetToken w
        \<longrightarrow> uid v = uid w)"

definition freshToken :: "env \<Rightarrow> store \<Rightarrow> bool" where
  \<comment> \<open>Modelled from the spec: the reset token that \<^verbatim>\<open>getResetPasswordToken\<close> of the absent
      User model generates is a single-use secret, so its digest is on no stored document
      when it is generated.\<close>
  "freshToken env st =
     list_all (\<lambda>u. passwordResetToken u \<noteq> Some (sha256hex env (randomToken env))) st"

text \<open>
  The user collections that the handlers produce: from the empty collection, by any
  request to any handler, under any collaborators, configuration and clock, a
  forgot-password request generating a fresh token.
\<close>

inductive reachable :: "store \<Rightarrow> bool" where
  initial: "reachable []"
| forgot: "reachable st \<Longrightarrow> freshToken env st \<Longrightarrow>
           reachable (store (forgotPassword env st req))"
| other: "reachable st \<Longrightarrow>
          h \<in> set [register, login, getMe, logout, resetPassword, updateDetails, updatePassword] \<Longrightarrow>
          reachable (store (h env st req))"

definition operations :: "(env \<Rightarrow> store \<Rightarrow> request \<Rightarrow> outcome) list" where
  \<comment> \<open>the handlers that the file exports\<close>
  "operations = [register, login, getMe, logout, forgotPassword, resetPassword,
                 updateDetails, updatePassword]"

subsection \<open>Example data\<close>

definition env0 :: env where
  "env0 = \<lparr>now = 1000, now_issue = 1200, NODE_ENV = Some ''production'',
           JWT_COOKIE_EXPIRE = Some ''30'', dateOfOther = (\<lambda>t s. Invalid_Date),
           sha256hex = (\<lambda>s. ''sha:'' @ s),
           hashPassword = (\<lambda>s. ''bc:'' @ s),
           validates = (\<lambda>u. True),
           matchPassword = (\<lambda>u p. case p of None \<Rightarrow> Inl ''Illegal arguments''
                                        | Some x \<Rightarrow> Inr (password u = Some (''bc:'' @ x))),
           getSignedJwtToken = (\<lambda>u. ''jwt:'' @ str (email u)),
           randomToken = ''r4nd0m'', resetWindow = 600000,
           sendEmail = (\<lambda>m. False)\<rparr>"

definition alice :: user where
  "alice = \<lparr>uid = 1, name = Some ''Alice'', email = Some ''a@x.com'',
            password = Some ''bc:pw123'', role = Some ''user'',
            passwordResetToken = None, passwordResetExpire = None\<rparr>"

definition bob :: user where
  "bob = \<lparr>uid = 2, name = Some ''Bob'', email = Some ''b@x.com'',
          password = Some ''bc:hunter2'', role = Some ''publisher'',
          passwordResetToken = Some ''sha:tok'', passwordResetExpire = Some 5000\<rparr>"

definition request0 :: "(string \<times> string) list \<Rightarrow> request" where
  "request0 kvs = \<lparr>body = map_of kvs, params_resettoken = ''tok'', req_user = Some alice,
                    protocol = ''http'', host = Some ''localhost:5000''\<rparr>"

definition env_delivering :: env where
  \<comment> \<open>as \<open>env0\<close>, with a mail transport that delivers\<close>
  "env_delivering = env0\<lparr>sendEmail := (\<lambda>m. True)\<rparr>"

definition env_later :: env where
  \<comment> \<open>as \<open>env0\<close>, at a later instant\<close>
  "env_later = env0\<lparr>now := 6000\<rparr>"

definition env_forgot :: env where
  \<comment> \<open>as \<open>env0\<close>, generating the token \<open>tok\<close> that is valid until 5000 and delivering
      the mail\<close>
  "env_forgot = env0\<lparr>randomToken := ''tok'', resetWindow := 4000, sendEmail := (\<lambda>m. True)\<rparr>"

section \<open>Auxiliary facts\<close>

lemmas flow_defs = next_err_def throws_def responds_def asyncHandler_def

lemma find_Some_set: "find P xs = Some u \<Longrightarrow> u \<in> set xs \<and> P u"
  by (induction xs) (auto split: if_splits)

lemma findOne_email_None: "(\<forall>u\<in>set st. email u \<noteq> e) \<Longrightarrow> findOne_email st e = None"
  by (simp add: findOne_email_def find_None_iff)

lemma register_nexts_status: "list_all hasStatusCode (nexts (register env st req))"
  by (simp add: register_def flow_defs hasStatusCode_def Let_def split: sum.splits prod.splits)

lemma login_nexts_status:
  "\<not> falsy (body req ''email'') \<Longrightarrow> \<not> falsy (body req ''password'') \<Longrightarrow>
   list_all hasStatusCode (nexts (login env st req))"
  by (simp add: login_def flow_defs hasStatusCode_def Let_def
           split: sum.splits option.splits)

lemma getMe_nexts_status: "list_all hasStatusCode (nexts (getMe env st req))"
  by (simp add: getMe_def flow_defs)

lemma logout_nexts_status: "list_all hasStatusCode (nexts (logout env st req))"
  by (simp add: logout_def flow_defs)

lemma forgotPassword_nexts_status: "list_all hasStatusCode (nexts (forgotPassword env st req))"
  by (simp add: forgotPassword_def flow_defs hasStatusCode_def Let_def
           split: prod.splits option.splits)

lemma resetPassword_nexts_status: "list_all hasStatusCode (nexts (resetPassword env st req))"
  by (simp add: resetPassword_def flow_defs hasStatusCode_def Let_def
           split: sum.splits prod.splits option.splits)

lemma updateDetails_nexts_status: "list_all hasStatusCode (nexts (updateDetails env st req))"
  by (simp add: updateDetails_def flow_defs hasStatusCode_def Let_def
           split: sum.splits prod.splits option.splits)

lemma updatePassword_nexts_status: "list_all hasStatusCode (nexts (updatePassword env st req))"
  by (simp add: updatePassword_def flow_defs hasStatusCode_def Let_def
           split: sum.splits prod.splits option.splits)

lemma findById_save_noValidate:
  "\<exists>x\<in>set st. uid x = uid u' \<Longrightarrow> findById (save_noValidate u' st) (uid u') = Some u'"
  by (induction st) (auto simp: findById_def save_noValidate_def)

lemma set_save_noValidate:
  "v \<in> set (save_noValidate u' st) \<Longrightarrow> v = u' \<or> (v \<in> set st \<and> uid v \<noteq> uid u')"
  by (auto simp: save_noValidate_def split: if_splits)

lemma uid_in_save_noValidate:
  "(\<exists>x\<in>set (save_noValidate v st). uid x = i) = (\<exists>x\<in>set st. uid x = i)"
  by (induction st) (auto simp: save_noValidate_def)

lemma list_all_save_noValidate:
  "list_all P st \<Longrightarrow> P u' \<Longrightarrow> list_all P (save_noValidate u' st)"
  by (induction st) (auto simp: save_noValidate_def)

lemma findOne_email_Some: "findOne_email st e = Some u \<Longrightarrow> u \<in> set st \<and> email u = e"
  unfolding findOne_email_def by (drule find_Some_set) simp

lemma findById_Some: "findById st i = Some u \<Longrightarrow> u \<in> set st \<and> uid u = i"
  unfolding findById_def by (drule find_Some_set) simp

lemma findOne_resetToken_Some:
  "findOne_resetToken st h t = Some u \<Longrightarrow>
     u \<in> set st \<and> passwordResetToken u = Some h \<and> (\<exists>x. passwordResetExpire u = Some x \<and> t < x)"
  unfolding findOne_resetToken_def by (drule find_Some_set) (auto split: option.splits)

lemma findOne_resetToken_None:
  "(\<forall>u\<in>set st. passwordResetToken u = Some h \<longrightarrow> (\<forall>x. passwordResetExpire u = Some x \<longrightarrow> \<not> t < x))
   \<Longrightarrow> findOne_resetToken st h t = None"
  by (auto simp add: findOne_resetToken_def find_None_iff split: option.splits)

lemma resetPassword_not_found:
  "findOne_resetToken st (sha256hex env (params_resettoken req)) (now env) = None \<Longrightarrow>
   resetPassword env st req =
     \<lparr>store = st, calls = [FindOne_resetToken (sha256hex env (params_resettoken req)) (now env)],
      nexts = [ErrorResponse ''Invalid token'' (Some 400), TypeError],
      response = None, thrown = None\<rparr>"
  by (simp add: resetPassword_def flow_defs Let_def)

lemma resetPassword_found:
  "findOne_resetToken st (sha256hex env (params_resettoken req)) (now env) = Some u0 \<Longrightarrow>
   response (resetPassword env st req) = Some resp \<Longrightarrow>
   store (resetPassword env st req) =
     save_noValidate (u0\<lparr>passwordResetToken := None, passwordResetExpire := None,
                         password := map_option (hashPassword env) (body req ''password'')\<rparr>) st"
  by (auto simp add: resetPassword_def flow_defs Let_def save_def split: if_splits)

text \<open>Preservation, for any property of a document that depends on its reset fields only.\<close>

lemma register_preserves:
  assumes clr: "\<And>u. passwordResetToken u = None \<Longrightarrow> passwordResetExpire u = None \<Longrightarrow> P u"
      and inv: "list_all P st"
  shows "list_all P (store (register env st req))"
  using inv
  by (auto simp add: register_def flow_defs Let_def User_create_def clr
        split: sum.splits prod.splits if_splits)

lemma login_store: "store (login env st req) = st"
  by (simp add: login_def flow_defs Let_def split: sum.splits option.splits)

lemma getMe_store: "store (getMe env st req) = st"
  by (simp add: getMe_def flow_defs)

lemma logout_store: "store (logout env st req) = st"
  by (simp add: logout_def flow_defs)

lemma forgotPassword_preserves:
  assumes clr: "\<And>u. passwordResetToken u = None \<Longrightarrow> passwordResetExpire u = None \<Longrightarrow> P u"
      and new: "\<And>u h. passwordResetToken u = Some h \<Longrightarrow>
                  passwordResetExpire u = Some (now env + resetWindow env) \<Longrightarrow> P u"
      and inv: "list_all P st"
  shows "list_all P (store (forgotPassword env st req))"
proof (cases "findOne_email st (body req ''email'')")
  case None
  then show ?thesis using inv by (simp add: forgotPassword_def flow_defs)
next
  case (Some u)
  have p1: "P (u\<lparr>passwordResetToken := Some (sha256hex env (randomToken env)),
                 passwordResetExpire := Some (now env + resetWindow env)\<rparr>)"
    by (rule new) simp_all
  have p2: "P (u\<lparr>passwordResetToken := None, passwordResetExpire := None\<rparr>)"
    by (rule clr) simp_all
  show ?thesis
    using Some inv p1 p2
    by (simp add: forgotPassword_def flow_defs getResetPasswordToken_def Let_def
          list_all_save_noValidate)
qed

lemma resetPassword_preserves:
  assumes clr: "\<And>u. passwordResetToken u = None \<Longrightarrow> passwordResetExpire u = None \<Longrightarrow> P u"
      and inv: "list_all P st"
  shows "list_all P (store (resetPassword env st req))"
proof (cases "findOne_resetToken st (sha256hex env (params_resettoken req)) (now env)")
  case None
  then show ?thesis using inv by (simp add: resetPassword_not_found)
next
  case (Some u)
  have "P (u\<lparr>passwordResetToken := None, passwordResetExpire := None, password := p\<rparr>)" for p
    by (rule clr) simp_all
  then show ?thesis
    using Some inv
    by (simp add: resetPassword_def flow_defs save_def Let_def list_all_save_noValidate)
qed

lemma updateDetails_preserves:
  assumes dep: "\<And>u v. passwordResetToken u = passwordResetToken v \<Longrightarrow>
                  passwordResetExpire u = passwordResetExpire v \<Longrightarrow> P u \<Longrightarrow> P v"
      and inv: "list_all P st"
  shows "list_all P (store (updateDetails env st req))"
proof (cases "req_user req")
  case None
  then show ?thesis using inv by (simp add: updateDetails_def flow_defs)
next
  case me: (Some me)
  show ?thesis
  proof (cases "findById st (uid me)")
    case None
    then show ?thesis using me inv
      by (simp add: updateDetails_def flow_defs findByIdAndUpdate_def Let_def)
  next
    case (Some u)
    then have "P u"
      using inv findById_Some by (auto simp: list_all_iff)
    then have "P (u\<lparr>name := n, email := e\<rparr>)" for n e
      by (rule dep [rotated 2]) simp_all
    then show ?thesis
      using Some me inv
      by (simp add: updateDetails_def flow_defs findByIdAndUpdate_def Let_def
            list_all_save_noValidate)
  qed
qed

lemma updatePassword_preserves:
  assumes dep: "\<And>u v. passwordResetToken u = passwordResetToken v \<Longrightarrow>
                  passwordResetExpire u = passwordResetExpire v \<Longrightarrow> P u \<Longrightarrow> P v"
      and inv: "list_all P st"
  shows "list_all P (store (updatePassword env st req))"
proof (cases "req_user req")
  case None
  then show ?thesis using inv by (simp add: updatePassword_def flow_defs)
next
  case me: (Some me)
  show ?thesis
  proof (cases "findById st (uid me)")
    case None
    then show ?thesis using me inv
      by (simp add: updatePassword_def flow_defs)
  next
    case (Some u)
    then have "P u"
      using inv findById_Some by (auto simp: list_all_iff)
    then have "P (u\<lparr>password := p\<rparr>)" for p
      by (rule dep [rotated 2]) simp_all
    then show ?thesis
      using Some me inv
      by (simp add: updatePassword_def flow_defs save_def Let_def
            list_all_save_noValidate split: sum.splits)
  qed
qed

lemma operations_preserve:
  assumes dep: "\<And>u v. passwordResetToken u = passwordResetToken v \<Longrightarrow>
                  passwordResetExpire u = passwordResetExpire v \<Longrightarrow> P u \<Longrightarrow> P v"
      and clr: "\<And>u. passwordResetToken u = None \<Longrightarrow> passwordResetExpire u = None \<Longrightarrow> P u"
      and new: "\<And>u h. passwordResetToken u = Some h \<Longrightarrow>
                  passwordResetExpire u = Some (now env + resetWindow env) \<Longrightarrow> P u"
      and inv: "list_all P st"
      and h: "h \<in> set operations"
  shows "list_all P (store (h env st req))"
proof -
  from h consider "h = register" | "h = login" | "h = getMe" | "h = logout"
    | "h = forgotPassword" | "h = resetPassword" | "h = updateDetails" | "h = updatePassword"
    by (auto simp: operations_def)
  then show ?thesis
  proof cases
    case 1 then show ?thesis using register_preserves [of P, OF clr inv] by simp
  next
    case 2 then show ?thesis using inv by (simp add: login_store)
  next
    case 3 then show ?thesis using inv by (simp add: getMe_store)
  next
    case 4 then show ?thesis using inv by (simp add: logout_store)
  next
    case 5 then show ?thesis using forgotPassword_preserves [of P, OF clr new inv] by simp
  next
    case 6 then show ?thesis using resetPassword_preserves [of P, OF clr inv] by simp
  next
    case 7 then show ?thesis using updateDetails_preserves [of P, OF dep inv] by simp
  next
    case 8 then show ?thesis using updatePassword_preserves [of P, OF dep inv] by simp
  qed
qed

lemma forgotPassword_sets_both:
  assumes found: "findOne_email st (body req ''email'') = Some u"
      and ok: "response (forgotPassword env st req) = Some resp"
  shows "findById (store (forgotPassword env st req)) (uid u)
           = Some (u\<lparr>passwordResetToken := Some (sha256hex env (randomToken env)),
                     passwordResetExpire := Some (now env + resetWindow env)\<rparr>)"
proof -
  define u1 where "u1 = u\<lparr>passwordResetToken := Some (sha256hex env (randomToken env)),
        passwordResetExpire := Some (now env + resetWindow env)\<rparr>"
  have st': "store (forgotPassword env st req) = save_noValidate u1 st"
    using found ok
    by (auto simp add: forgotPassword_def flow_defs getResetPasswordToken_def Let_def u1_def
          split: if_splits)
  have "\<exists>x\<in>set st. uid x = uid u1"
    using findOne_email_Some [OF found] by (auto simp: u1_def)
  then have "findById (save_noValidate u1 st) (uid u1) = Some u1"
    by (rule findById_save_noValidate)
  then show ?thesis by (simp add: st' u1_def)
qed

lemma forgotPassword_clears_both:
  assumes found: "findOne_email st (body req ''email'') = Some u"
      and ko: "response (forgotPassword env st req) = None"
  shows "findById (store (forgotPassword env st req)) (uid u)
           = Some (u\<lparr>passwordResetToken := None, passwordResetExpire := None\<rparr>)"
proof -
  define u1 where "u1 = u\<lparr>passwordResetToken := Some (sha256hex env (randomToken env)),
        passwordResetExpire := Some (now env + resetWindow env)\<rparr>"
  define u2 where "u2 = u\<lparr>passwordResetToken := None, passwordResetExpire := None\<rparr>"
  have st': "store (forgotPassword env st req) = save_noValidate u2 (save_noValidate u1 st)"
    using found ko
    by (auto simp add: forgotPassword_def flow_defs getResetPasswordToken_def Let_def u1_def u2_def
          split: if_splits)
  have "\<exists>x\<in>set (save_noValidate u1 st). uid x = uid u2"
    using findOne_email_Some [OF found] by (auto simp: uid_in_save_noValidate u2_def)
  then have "findById (save_noValidate u2 (save_noValidate u1 st)) (uid u2) = Some u2"
    by (rule findById_save_noValidate)
  then show ?thesis by (simp add: st' u2_def)
qed

lemma resetPassword_clears_both:
  assumes found: "findOne_resetToken st (sha256hex env (params_resettoken req)) (now env) = Some u"
      and ok: "response (resetPassword env st req) = Some resp"
  shows "findById (store (resetPassword env st req)) (uid u)
           = Some (u\<lparr>passwordResetToken := None, passwordResetExpire := None,
                     password := map_option (hashPassword env) (body req ''password'')\<rparr>)"
proof -
  define u' where "u' = u\<lparr>passwordResetToken := None, passwordResetExpire := None,
                     password := map_option (hashPassword env) (body req ''password'')\<rparr>"
  have st': "store (resetPassword env st req) = save_noValidate u' st"
    using resetPassword_found [OF found ok] by (simp add: u'_def)
  have "\<exists>x\<in>set st. uid x = uid u'"
    using findOne_resetToken_Some [OF found] by (auto simp: u'_def)
  then have "findById (save_noValidate u' st) (uid u') = Some u'"
    by (rule findById_save_noValidate)
  then show ?thesis by (simp add: st' u'_def)
qed





lemma env0_simps:
  "now env0 = 1000" "now_issue env0 = 1200" "NODE_ENV env0 = Some ''production''"
  "JWT_COOKIE_EXPIRE env0 = Some ''30''"
  "sha256hex env0 s = ''sha:'' @ s" "hashPassword env0 s = ''bc:'' @ s" "validates env0 u"
  "matchPassword env0 u p = (case p of None \<Rightarrow> Inl ''Illegal arguments''
                               | Some x \<Rightarrow> Inr (password u = Some (''bc:'' @ x)))"
  "getSignedJwtToken env0 u = ''jwt:'' @ str (email u)"
  "randomToken env0 = ''r4nd0m''" "resetWindow env0 = 600000" "\<not> sendEmail env0 m"
  by (simp_all add: env0_def split: option.splits)

lemma fresh_id_alice: "fresh_id [alice] = 2"
  by (simp add: fresh_id_def alice_def)

lemma resetPassword_bob:
  "resetPassword env0 (alice # bob # rest) (request0 [(''password'', ''newpw1'')]) =
     responds (alice # save_noValidate (bob\<lparr>passwordResetToken := None, passwordResetExpire := None,
                        password := Some ''bc:newpw1''\<rparr>) (bob # rest))
       [FindOne_resetToken ''sha:tok'' 1000,
        Save (bob\<lparr>password := Some ''newpw1'', passwordResetToken := None, passwordResetExpire := None\<rparr>) True]
       (sendTokenResponse env0 (bob\<lparr>passwordResetToken := None, passwordResetExpire := None,
                        password := Some ''bc:newpw1''\<rparr>) 200)"
  by (simp add: resetPassword_def findOne_resetToken_def save_def save_noValidate_def flow_defs
        env0_def request0_def alice_def bob_def Let_def)





lemma digestsUniqueD:
  "digestsUnique st \<Longrightarrow> v \<in> set st \<Longrightarrow> w \<in> set st \<Longrightarrow>
   passwordResetToken v \<noteq> None \<Longrightarrow> passwordResetToken v = passwordResetToken w \<Longrightarrow>
   uid v = uid w"
  unfolding digestsUnique_def by blast

lemma digestsUnique_old_new:
  assumes inv: "digestsUnique st"
      and new: "passwordResetToken u' = None
                \<or> (\<exists>u\<in>set st. uid u = uid u' \<and> passwordResetToken u = passwordResetToken u')
                \<or> (\<forall>v\<in>set st. passwordResetToken v \<noteq> passwordResetToken u')"
      and w: "w \<in> set st" and tok: "passwordResetToken u' \<noteq> None"
      and eq: "passwordResetToken w = passwordResetToken u'"
  shows "uid w = uid u'"
  using new
proof (elim disjE bexE conjE)
  assume "passwordResetToken u' = None"
  with tok show ?thesis by contradiction
next
  fix u
  assume u: "u \<in> set st" and id: "uid u = uid u'"
    and same: "passwordResetToken u = passwordResetToken u'"
  have "passwordResetToken w \<noteq> None"
    unfolding eq by (rule tok)
  moreover have "passwordResetToken w = passwordResetToken u"
    unfolding eq same by (rule refl)
  ultimately have "uid w = uid u"
    by (rule digestsUniqueD [OF inv w u])
  then show ?thesis unfolding id .
next
  assume "\<forall>v\<in>set st. passwordResetToken v \<noteq> passwordResetToken u'"
  then have "passwordResetToken w \<noteq> passwordResetToken u'"
    using w by (rule bspec)
  with eq show ?thesis by contradiction
qed

lemma digestsUnique_save_noValidate:
  assumes inv: "digestsUnique st"
      and new: "passwordResetToken u' = None
                \<or> (\<exists>u\<in>set st. uid u = uid u' \<and> passwordResetToken u = passwordResetToken u')
                \<or> (\<forall>v\<in>set st. passwordResetToken v \<noteq> passwordResetToken u')"
  shows "digestsUnique (save_noValidate u' st)"
  unfolding digestsUnique_def
proof (intro ballI impI)
  fix v w
  assume v: "v \<in> set (save_noValidate u' st)" and w: "w \<in> set (save_noValidate u' st)"
    and eq: "passwordResetToken v \<noteq> None \<and> passwordResetToken v = passwordResetToken w"
  from eq have tok: "passwordResetToken v \<noteq> None"
    and same: "passwordResetToken v = passwordResetToken w"
    by blast+
  from v consider (new) "v = u'" | (old) "v \<in> set st" "uid v \<noteq> uid u'"
    using set_save_noValidate by blast
  then show "uid v = uid w"
  proof cases
    case new
    from w consider (new') "w = u'" | (old') "w \<in> set st" "uid w \<noteq> uid u'"
      using set_save_noValidate by blast
    then show ?thesis
    proof cases
      case new'
      show ?thesis unfolding new new' by (rule refl)
    next
      case old'
      have "passwordResetToken u' \<noteq> None"
        using tok unfolding new .
      moreover have "passwordResetToken w = passwordResetToken u'"
        using same unfolding new by (rule sym)
      ultimately have "uid w = uid u'"
        by (rule digestsUnique_old_new [OF inv assms(2) old'(1)])
      with old'(2) show ?thesis by blast
    qed
  next
    case old
    from w consider (new') "w = u'" | (old') "w \<in> set st" "uid w \<noteq> uid u'"
      using set_save_noValidate by blast
    then show ?thesis
    proof cases
      case new'
      have "passwordResetToken u' \<noteq> None"
        using tok unfolding same new' .
      moreover have "passwordResetToken v = passwordResetToken u'"
        using same unfolding new' .
      ultimately have "uid v = uid u'"
        by (rule digestsUnique_old_new [OF inv assms(2) old(1)])
      with old(2) show ?thesis by blast
    next
      case old'
      show ?thesis
        using inv old(1) old'(1) tok same by (rule digestsUniqueD)
    qed
  qed
qed

lemma digestsUnique_append:
  assumes inv: "digestsUnique st" and none: "passwordResetToken u = None"
  shows "digestsUnique (st @ [u])"
  unfolding digestsUnique_def
proof (intro ballI impI)
  fix v w
  assume v: "v \<in> set (st @ [u])" and w: "w \<in> set (st @ [u])"
    and eq: "passwordResetToken v \<noteq> None \<and> passwordResetToken v = passwordResetToken w"
  from eq have tok: "passwordResetToken v \<noteq> None"
    and same: "passwordResetToken v = passwordResetToken w"
    by blast+
  from tok none have "v \<noteq> u" by blast
  moreover from tok same none have "w \<noteq> u" by metis
  ultimately have "v \<in> set st" and "w \<in> set st"
    using v w by simp_all
  then show "uid v = uid w"
    using tok same by (rule digestsUniqueD [OF inv])
qed

lemma register_digestsUnique:
  assumes inv: "digestsUnique st"
  shows "digestsUnique (store (register env st req))"
proof (cases "User_create env st \<lparr>c_name = body req ''name'', c_email = body req ''email'',
               c_password = body req ''password'', c_role = body req ''role''\<rparr>")
  case (Inl x)
  then show ?thesis using inv by (simp add: register_def flow_defs Let_def)
next
  case (Inr r)
  then obtain u where r: "r = (u, st @ [u])" and none: "passwordResetToken u = None"
    by (auto simp add: User_create_def Let_def split: if_splits)
  have "digestsUnique (st @ [u])"
    using inv none by (rule digestsUnique_append)
  then show ?thesis
    using Inr r by (simp add: register_def flow_defs Let_def)
qed

lemma forgotPassword_digestsUnique:
  assumes inv: "digestsUnique st" and fresh: "freshToken env st"
  shows "digestsUnique (store (forgotPassword env st req))"
proof (cases "findOne_email st (body req ''email'')")
  case None
  then show ?thesis using inv by (simp add: forgotPassword_def flow_defs)
next
  case (Some u)
  let ?u1 = "u\<lparr>passwordResetToken := Some (sha256hex env (randomToken env)),
                 passwordResetExpire := Some (now env + resetWindow env)\<rparr>"
  let ?u2 = "?u1\<lparr>passwordResetToken := None, passwordResetExpire := None\<rparr>"
  have new: "\<forall>v\<in>set st. passwordResetToken v \<noteq> passwordResetToken ?u1"
    using fresh by (simp add: freshToken_def list_all_iff)
  have 1: "digestsUnique (save_noValidate ?u1 st)"
    by (rule digestsUnique_save_noValidate [OF inv]) (use new in blast)
  have 2: "digestsUnique (save_noValidate ?u2 (save_noValidate ?u1 st))"
    by (rule digestsUnique_save_noValidate [OF 1]) simp
  show ?thesis
    using Some 1 2
    by (simp add: forgotPassword_def flow_defs getResetPasswordToken_def Let_def)
qed

lemma resetPassword_digestsUnique:
  assumes inv: "digestsUnique st"
  shows "digestsUnique (store (resetPassword env st req))"
proof (cases "findOne_resetToken st (sha256hex env (params_resettoken req)) (now env)")
  case None
  then show ?thesis using inv by (simp add: resetPassword_not_found)
next
  case (Some u)
  have "digestsUnique (save_noValidate
          (u\<lparr>passwordResetToken := None, passwordResetExpire := None, password := p\<rparr>) st)" for p
    by (rule digestsUnique_save_noValidate [OF inv]) simp
  then show ?thesis
    using Some inv
    by (simp add: resetPassword_def flow_defs save_def Let_def)
qed

lemma updateDetails_digestsUnique:
  assumes inv: "digestsUnique st"
  shows "digestsUnique (store (updateDetails env st req))"
proof (cases "req_user req")
  case None
  then show ?thesis using inv by (simp add: updateDetails_def flow_defs)
next
  case me: (Some me)
  show ?thesis
  proof (cases "findById st (uid me)")
    case None
    then show ?thesis using me inv
      by (simp add: updateDetails_def flow_defs findByIdAndUpdate_def Let_def)
  next
    case (Some u)
    then have "u \<in> set st" by (simp add: findById_Some)
    then have "digestsUnique (save_noValidate (u\<lparr>name := n, email := e\<rparr>) st)" for n e
      by (intro digestsUnique_save_noValidate [OF inv] disjI2 disjI1) auto
    then show ?thesis
      using Some me inv
      by (simp add: updateDetails_def flow_defs findByIdAndUpdate_def Let_def)
  qed
qed

lemma updatePassword_digestsUnique:
  assumes inv: "digestsUnique st"
  shows "digestsUnique (store (updatePassword env st req))"
proof (cases "req_user req")
  case None
  then show ?thesis using inv by (simp add: updatePassword_def flow_defs)
next
  case me: (Some me)
  show ?thesis
  proof (cases "findById st (uid me)")
    case None
    then show ?thesis using me inv
      by (simp add: updatePassword_def flow_defs)
  next
    case (Some u)
    then have "u \<in> set st" by (simp add: findById_Some)
    then have "digestsUnique (save_noValidate (u\<lparr>password := p\<rparr>) st)" for p
      by (intro digestsUnique_save_noValidate [OF inv] disjI2 disjI1) auto
    then show ?thesis
      using Some me inv
      by (simp add: updatePassword_def flow_defs save_def Let_def split: sum.splits)
  qed
qed

lemma reachable_digestsUnique: "reachable st \<Longrightarrow> digestsUnique st"
proof (induction rule: reachable.induct)
  case initial
  show ?case by (simp add: digestsUnique_def)
next
  case (forgot st env req)
  then show ?case by (simp add: forgotPassword_digestsUnique)
next
  case (other st h env req)
  from other.hyps(2) consider "h = register" | "h = login" | "h = getMe" | "h = logout"
    | "h = resetPassword" | "h = updateDetails" | "h = updatePassword"
    by auto
  then show ?case
    using other.IH
    by cases (simp_all add: register_digestsUnique login_store getMe_store logout_store
        resetPassword_digestsUnique updateDetails_digestsUnique updatePassword_digestsUnique)
qed

lemma resetPassword_consumed:
  assumes uniq: "digestsUnique st"
      and ok: "response (resetPassword env st req) = Some resp"
      and same: "sha256hex env' = sha256hex env" "params_resettoken req' = params_resettoken req"
  shows "findOne_resetToken (store (resetPassword env st req))
           (sha256hex env' (params_resettoken req')) (now env') = None"
proof -
  let ?h = "sha256hex env (params_resettoken req)"
  obtain u0 where found: "findOne_resetToken st ?h (now env) = Some u0"
    using ok by (cases "findOne_resetToken st ?h (now env)") (auto simp: resetPassword_not_found)
  define u' where "u' = u0\<lparr>passwordResetToken := None, passwordResetExpire := None,
                         password := map_option (hashPassword env) (body req ''password'')\<rparr>"
  have st': "store (resetPassword env st req) = save_noValidate u' st"
    using resetPassword_found [OF found ok] by (simp add: u'_def)
  have u0: "u0 \<in> set st" "passwordResetToken u0 = Some ?h"
    using findOne_resetToken_Some [OF found] by auto
  have gone: "\<forall>v\<in>set (save_noValidate u' st). passwordResetToken v \<noteq> Some ?h"
  proof
    fix v assume "v \<in> set (save_noValidate u' st)"
    then consider "v = u'" | "v \<in> set st" "uid v \<noteq> uid u'"
      using set_save_noValidate by blast
    then show "passwordResetToken v \<noteq> Some ?h"
    proof cases
      case 1
      then show ?thesis by (simp add: u'_def)
    next
      case 2
      then have differ: "uid v \<noteq> uid u0" by (simp add: u'_def)
      show ?thesis
      proof
        assume tok: "passwordResetToken v = Some ?h"
        then have "passwordResetToken v \<noteq> None" by simp
        moreover have "passwordResetToken v = passwordResetToken u0"
          unfolding tok u0(2) by (rule refl)
        ultimately have "uid v = uid u0"
          by (rule digestsUniqueD [OF uniq 2(1) u0(1)])
        with differ show False by contradiction
      qed
    qed
  qed
  then show ?thesis
    unfolding st' by (intro findOne_resetToken_None) (simp add: same)
qed

lemma reachable_alice_bob: "reachable [alice, bob]"
proof -
  let ?ra = "request0 [(''name'', ''Alice''), (''email'', ''a@x.com''), (''password'', ''pw123''),
                       (''role'', ''user'')]"
  let ?rb = "request0 [(''name'', ''Bob''), (''email'', ''b@x.com''), (''password'', ''hunter2''),
                       (''role'', ''publisher'')]"
  let ?rf = "request0 [(''email'', ''b@x.com'')]"
  let ?bob0 = "bob\<lparr>passwordResetToken := None, passwordResetExpire := None\<rparr>"
  have s1: "store (register env0 [] ?ra) = [alice]"
    by (simp add: register_def User_create_def fresh_id_def flow_defs Let_def
          env0_simps request0_def alice_def)
  have s2: "store (register env0 [alice] ?rb) = [alice, ?bob0]"
    by (simp add: register_def User_create_def fresh_id_alice flow_defs Let_def
          env0_simps request0_def) (simp add: alice_def bob_def)
  have sel: "randomToken env_forgot = ''tok''" "resetWindow env_forgot = 4000"
    "sendEmail env_forgot m" "sha256hex env_forgot s = ''sha:'' @ s" "now env_forgot = 1000" for m s
    by (simp_all add: env_forgot_def env0_simps)
  have s3: "store (forgotPassword env_forgot [alice, ?bob0] ?rf) = [alice, bob]"
    by (simp add: forgotPassword_def findOne_email_def getResetPasswordToken_def
          save_noValidate_def flow_defs Let_def sel request0_def alice_def bob_def)
  have fresh: "freshToken env_forgot [alice, ?bob0]"
    by (simp add: freshToken_def sel alice_def)
  have "reachable (store (register env0 [] ?ra))"
    by (rule reachable.other [OF reachable.initial]) simp
  then have "reachable [alice]" by (simp only: s1)
  then have "reachable (store (register env0 [alice] ?rb))"
    by (rule reachable.other) simp
  then have "reachable [alice, ?bob0]" by (simp only: s2)
  then have "reachable (store (forgotPassword env_forgot [alice, ?bob0] ?rf))"
    using fresh by (rule reachable.forgot)
  then show ?thesis by (simp only: s3)
qed

section \<open>Verified properties\<close>

text \<open>
  C1 (as the code has it). When no user document stores the SHA-256 hex digest of the
  presented reset token together with an expiry strictly after the current instant,
  \<open>resetPassword\<close> hands \<^verbatim>\<open>next\<close> the error \<open>Invalid token\<close> with status 400 first,
  leaves the user collection unchanged (the lookup is its only call) and writes no
  response, hence issues no session token.
\<close>

theorem resetPassword_no_valid_token:
  assumes "\<forall>u\<in>set st. passwordResetToken u = Some (sha256hex env (params_resettoken req)) \<longrightarrow>
             (\<forall>x. passwordResetExpire u = Some x \<longrightarrow> \<not> now env < x)"
  shows "take 1 (nexts (resetPassword env st req)) = [ErrorResponse ''Invalid token'' (Some 400)]
       \<and> store (resetPassword env st req) = st
       \<and> calls (resetPassword env st req)
           = [FindOne_resetToken (sha256hex env (params_resettoken req)) (now env)]
       \<and> response (resetPassword env st req) = None"
proof -
  have "findOne_resetToken st (sha256hex env (params_resettoken req)) (now env) = None"
    using assms by (rule findOne_resetToken_None)
  then show ?thesis
    by (simp add: resetPassword_not_found)
qed

theorem resetPassword_no_valid_token_witness:
  "take 1 (nexts (resetPassword env_later [alice, bob] (request0 [(''password'', ''newpw1'')])))
     = [ErrorResponse ''Invalid token'' (Some 400)]
   \<and> store (resetPassword env_later [alice, bob] (request0 [(''password'', ''newpw1'')])) = [alice, bob]
   \<and> response (resetPassword env_later [alice, bob] (request0 [(''password'', ''newpw1'')])) = None"
proof -
  let ?r = "request0 [(''password'', ''newpw1'')]"
  have h: "\<forall>u\<in>set [alice, bob].
             passwordResetToken u = Some (sha256hex env_later (params_resettoken ?r)) \<longrightarrow>
             (\<forall>x. passwordResetExpire u = Some x \<longrightarrow> \<not> now env_later < x)"
    by (simp add: env_later_def env0_def alice_def bob_def)
  from resetPassword_no_valid_token [OF h]
  show ?thesis by simp
qed

text \<open>
  C1, the failing instance: bob's token has expired at the instant 6000. The errors handed
  to \<^verbatim>\<open>next\<close> are \<open>Invalid token\<close> with status 400 and then the \<open>TypeError\<close> of the
  assignment to the absent user; neither has status 401 or 404, so none is an AuthError.
\<close>

theorem resetPassword_expired_not_AuthError:
  "nexts (resetPassword env_later [alice, bob] (request0 [(''password'', ''newpw1'')]))
     = [ErrorResponse ''Invalid token'' (Some 400), TypeError]
   \<and> \<not> list_ex isAuthError
         (nexts (resetPassword env_later [alice, bob] (request0 [(''password'', ''newpw1'')])))"
proof -
  have "findOne_resetToken [alice, bob]
          (sha256hex env_later (params_resettoken (request0 [(''password'', ''newpw1'')])))
          (now env_later) = None"
    by (simp add: findOne_resetToken_def env_later_def env0_def request0_def alice_def bob_def)
  then show ?thesis
    by (simp add: resetPassword_not_found isAuthError_def)
qed

text \<open>
  C2. Whatever the stored users, a login whose email matches no user and a login whose
  email exists but whose password does not match both fail with the same generic error,
  \<open>Invalid credentials\<close> with status 401, so the caller cannot tell the two causes apart.
  Both fields are present in both requests (an absent field is answered before the lookup).
\<close>

theorem login_failures_indistinguishable:
  assumes "\<not> falsy (body r1 ''email'')" and "\<not> falsy (body r1 ''password'')"
      and "\<not> falsy (body r2 ''email'')" and "\<not> falsy (body r2 ''password'')"
      and "\<forall>u\<in>set st. email u \<noteq> body r1 ''email''"
      and "findOne_email st (body r2 ''email'') = Some u"
      and "matchPassword env u (body r2 ''password'') = Inr False"
  shows "nexts (login env st r1) = [ErrorResponse ''Invalid credentials'' (Some 401)]
       \<and> nexts (login env st r2) = nexts (login env st r1)
       \<and> isAuthError (ErrorResponse ''Invalid credentials'' (Some 401))
       \<and> response (login env st r1) = None \<and> response (login env st r2) = None
       \<and> store (login env st r1) = st \<and> store (login env st r2) = st"
proof -
  have none: "findOne_email st (body r1 ''email'') = None"
    using assms(5) by (rule findOne_email_None)
  have first: "login env st r1 =
      next_err st [FindOne_email (body r1 ''email'')] (ErrorResponse ''Invalid credentials'' (Some 401))"
    using assms(1,2) none by (simp add: login_def flow_defs Let_def)
  have second: "login env st r2 =
      next_err st [FindOne_email (body r2 ''email''), MatchPassword (uid u) (body r2 ''password'')]
        (ErrorResponse ''Invalid credentials'' (Some 401))"
    using assms(3,4,6,7) by (simp add: login_def flow_defs Let_def)
  show ?thesis
    by (simp add: first second next_err_def isAuthError_def)
qed

theorem login_failures_indistinguishable_witness:
  "nexts (login env0 [alice] (request0 [(''email'', ''z@x.com''), (''password'', ''pw123'')]))
     = [ErrorResponse ''Invalid credentials'' (Some 401)]
   \<and> nexts (login env0 [alice] (request0 [(''email'', ''a@x.com''), (''password'', ''wrong'')]))
     = [ErrorResponse ''Invalid credentials'' (Some 401)]"
proof -
  let ?r1 = "request0 [(''email'', ''z@x.com''), (''password'', ''pw123'')]"
  let ?r2 = "request0 [(''email'', ''a@x.com''), (''password'', ''wrong'')]"
  have h1: "\<not> falsy (body ?r1 ''email'')" and h2: "\<not> falsy (body ?r1 ''password'')"
   and h3: "\<not> falsy (body ?r2 ''email'')" and h4: "\<not> falsy (body ?r2 ''password'')"
    by (simp_all add: request0_def falsy_def)
  have h5: "\<forall>u\<in>set [alice]. email u \<noteq> body ?r1 ''email''"
    by (simp add: request0_def alice_def)
  have h6: "findOne_email [alice] (body ?r2 ''email'') = Some alice"
    by (simp add: findOne_email_def request0_def alice_def)
  have h7: "matchPassword env0 alice (body ?r2 ''password'') = Inr False"
    by (simp add: env0_def request0_def alice_def)
  from login_failures_indistinguishable [OF h1 h2 h3 h4 h5 h6 h7]
  show ?thesis by simp
qed

text \<open>
  C3. On every user collection that the handlers produce, if \<open>resetPassword\<close> succeeds
  with a token (clearing the user's reset fields), then a second \<open>resetPassword\<close>
  presenting the same token against the resulting collection, at any instant and with any
  new password, fails: it writes no response, hands \<^verbatim>\<open>next\<close> the error \<open>Invalid token\<close>
  first, and changes nothing. A consumed reset token permits one password change.
\<close>

theorem resetPassword_single_use:
  assumes state: "reachable st"
      and ok: "response (resetPassword env st req) = Some resp"
      and same: "sha256hex env' = sha256hex env" "params_resettoken req' = params_resettoken req"
  shows "response (resetPassword env' (store (resetPassword env st req)) req') = None
       \<and> take 1 (nexts (resetPassword env' (store (resetPassword env st req)) req'))
           = [ErrorResponse ''Invalid token'' (Some 400)]
       \<and> store (resetPassword env' (store (resetPassword env st req)) req')
           = store (resetPassword env st req)"
proof -
  have "digestsUnique st"
    using state by (rule reachable_digestsUnique)
  then have "findOne_resetToken (store (resetPassword env st req))
           (sha256hex env' (params_resettoken req')) (now env') = None"
    using ok same by (rule resetPassword_consumed)
  then show ?thesis
    by (simp add: resetPassword_not_found)
qed

theorem resetPassword_single_use_witness:
  "response (resetPassword env_later
       (store (resetPassword env0 [alice, bob] (request0 [(''password'', ''newpw1'')])))
       (request0 [(''password'', ''again22'')])) = None
   \<and> take 1 (nexts (resetPassword env_later
       (store (resetPassword env0 [alice, bob] (request0 [(''password'', ''newpw1'')])))
       (request0 [(''password'', ''again22'')])))
     = [ErrorResponse ''Invalid token'' (Some 400)]"
proof -
  let ?r = "request0 [(''password'', ''newpw1'')]"
  let ?r' = "request0 [(''password'', ''again22'')]"
  have ok: "response (resetPassword env0 [alice, bob] ?r)
     = Some (sendTokenResponse env0 (bob\<lparr>passwordResetToken := None, passwordResetExpire := None,
                        password := Some ''bc:newpw1''\<rparr>) 200)"
    by (simp add: resetPassword_bob responds_def)
  have s1: "sha256hex env_later = sha256hex env0"
    by (simp add: env_later_def)
  have s2: "params_resettoken ?r' = params_resettoken ?r"
    by (simp add: request0_def)
  from resetPassword_single_use [OF reachable_alice_bob ok s1 s2]
  show ?thesis by simp
qed

text \<open>
  C4. When \<open>forgotPassword\<close> finds the user and the mail it sends is not delivered, it
  clears the user's \<open>passwordResetToken\<close> and \<open>passwordResetExpire\<close>, persists the cleared
  document (its last call is that save, and the stored document of the user has both
  fields undefined, other users' documents being untouched), and fails with
  \<open>Email could not be sent\<close>, status 500 (a DeliveryError); no response is written.
\<close>

theorem forgotPassword_send_fails:
  assumes found: "findOne_email st (body req ''email'') = Some u"
      and fails: "\<forall>m. SendEmail m \<in> set (calls (forgotPassword env st req)) \<longrightarrow> \<not> sendEmail env m"
  shows "nexts (forgotPassword env st req) = [ErrorResponse ''Email could not be sent'' (Some 500)]
       \<and> isDeliveryError (ErrorResponse ''Email could not be sent'' (Some 500))
       \<and> response (forgotPassword env st req) = None
       \<and> findById (store (forgotPassword env st req)) (uid u)
           = Some (u\<lparr>passwordResetToken := None, passwordResetExpire := None\<rparr>)
       \<and> (\<forall>v\<in>set (store (forgotPassword env st req)). uid v = uid u \<longrightarrow>
             passwordResetToken v = None \<and> passwordResetExpire v = None)
       \<and> (\<forall>v\<in>set (store (forgotPassword env st req)). uid v \<noteq> uid u \<longrightarrow> v \<in> set st)
       \<and> last (calls (forgotPassword env st req))
           = Save (u\<lparr>passwordResetToken := None, passwordResetExpire := None\<rparr>) False"
proof -
  define resetUrl where "resetUrl = protocol req @ ''://'' @ str (host req) @
                             ''/api/v1/auth/resetpassword/'' @ randomToken env"
  define m where "m = \<lparr>mail_email = email u, subject = ''Password reset token'',
                       message = reset_message resetUrl\<rparr>"
  define u1 where "u1 = u\<lparr>passwordResetToken := Some (sha256hex env (randomToken env)),
        passwordResetExpire := Some (now env + resetWindow env)\<rparr>"
  define u2 where "u2 = u\<lparr>passwordResetToken := None, passwordResetExpire := None\<rparr>"
  have sent: "SendEmail m \<in> set (calls (forgotPassword env st req))"
    using found
    by (simp add: forgotPassword_def flow_defs getResetPasswordToken_def Let_def m_def resetUrl_def)
  with fails have nosend: "\<not> sendEmail env m" by blast
  have eq: "forgotPassword env st req =
      next_err (save_noValidate u2 (save_noValidate u1 st))
        [FindOne_email (body req ''email''), GetResetPasswordToken (uid u), Save u1 False,
         SendEmail m, Save u2 False]
        (ErrorResponse ''Email could not be sent'' (Some 500))"
    using found nosend
    by (simp add: forgotPassword_def flow_defs getResetPasswordToken_def Let_def m_def resetUrl_def u1_def u2_def)
  have ko: "response (forgotPassword env st req) = None"
    by (simp add: eq next_err_def)
  have byid: "findById (store (forgotPassword env st req)) (uid u) = Some u2"
    unfolding u2_def using found ko by (rule forgotPassword_clears_both)
  have id2: "uid u2 = uid u" by (simp add: u2_def)
  have cleared: "\<forall>v\<in>set (save_noValidate u2 (save_noValidate u1 st)). uid v = uid u \<longrightarrow>
             passwordResetToken v = None \<and> passwordResetExpire v = None"
    using id2 by (auto simp: u2_def dest!: set_save_noValidate)
  have others: "\<forall>v\<in>set (save_noValidate u2 (save_noValidate u1 st)). uid v \<noteq> uid u \<longrightarrow> v \<in> set st"
    using id2 by (auto simp: u1_def u2_def dest!: set_save_noValidate)
  show ?thesis
    using byid cleared others by (simp add: eq next_err_def isDeliveryError_def u2_def)
qed

theorem forgotPassword_send_fails_witness:
  "nexts (forgotPassword env0 [alice, bob] (request0 [(''email'', ''b@x.com'')]))
     = [ErrorResponse ''Email could not be sent'' (Some 500)]
   \<and> response (forgotPassword env0 [alice, bob] (request0 [(''email'', ''b@x.com'')])) = None
   \<and> findById (store (forgotPassword env0 [alice, bob] (request0 [(''email'', ''b@x.com'')]))) 2
     = Some (bob\<lparr>passwordResetToken := None, passwordResetExpire := None\<rparr>)"
proof -
  let ?r = "request0 [(''email'', ''b@x.com'')]"
  have h1: "findOne_email [alice, bob] (body ?r ''email'') = Some bob"
    by (simp add: findOne_email_def request0_def alice_def bob_def)
  have h2: "\<forall>m. SendEmail m \<in> set (calls (forgotPassword env0 [alice, bob] ?r)) \<longrightarrow> \<not> sendEmail env0 m"
    by (simp add: env0_def)
  have "uid bob = 2" by (simp add: bob_def)
  with forgotPassword_send_fails [OF h1 h2]
  show ?thesis by simp
qed

text \<open>
  C5. A forgot-password request whose email matches no stored user fails with the
  not-found error (status 404) and leaves the user collection as it was: the only call
  made is the lookup, so no reset field is written and no mail is attempted.
\<close>

theorem forgotPassword_unknown_email:
  assumes "\<forall>u\<in>set st. email u \<noteq> body req ''email''"
  shows "nexts (forgotPassword env st req)
           = [ErrorResponse ''No user exists with that email'' (Some 404)]
       \<and> isNotFoundError (ErrorResponse ''No user exists with that email'' (Some 404))
       \<and> store (forgotPassword env st req) = st
       \<and> calls (forgotPassword env st req) = [FindOne_email (body req ''email'')]
       \<and> response (forgotPassword env st req) = None"
proof -
  have "findOne_email st (body req ''email'') = None"
    using assms by (rule findOne_email_None)
  then show ?thesis
    by (simp add: forgotPassword_def flow_defs isNotFoundError_def)
qed

theorem forgotPassword_unknown_email_witness:
  "nexts (forgotPassword env0 [alice, bob] (request0 [(''email'', ''z@x.com'')]))
     = [ErrorResponse ''No user exists with that email'' (Some 404)]
   \<and> store (forgotPassword env0 [alice, bob] (request0 [(''email'', ''z@x.com'')])) = [alice, bob]
   \<and> calls (forgotPassword env0 [alice, bob] (request0 [(''email'', ''z@x.com'')]))
     = [FindOne_email (Some ''z@x.com'')]"
proof -
  have h: "\<forall>u\<in>set [alice, bob]. email u \<noteq> body (request0 [(''email'', ''z@x.com'')]) ''email''"
    by (simp add: request0_def alice_def bob_def)
  from forgotPassword_unknown_email [OF h, of env0]
  show ?thesis by (simp add: request0_def)
qed

text \<open>
  C6. An update-password request whose current password does not match the caller's
  stored hash fails with \<open>Password is incorrect\<close>, status 404 (an AuthError); the user
  collection, and with it the stored hash, is unchanged, and no response carrying a
  session token is written.
\<close>

theorem updatePassword_wrong_current:
  assumes "req_user req = Some me" and "findById st (uid me) = Some u"
      and "matchPassword env u (body req ''currentPassword'') = Inr False"
  shows "nexts (updatePassword env st req) = [ErrorResponse ''Password is incorrect'' (Some 404)]
       \<and> isAuthError (ErrorResponse ''Password is incorrect'' (Some 404))
       \<and> store (updatePassword env st req) = st
       \<and> findById (store (updatePassword env st req)) (uid me) = Some u
       \<and> response (updatePassword env st req) = None"
  using assms by (simp add: updatePassword_def flow_defs Let_def isAuthError_def)

theorem updatePassword_wrong_current_witness:
  "nexts (updatePassword env0 [alice, bob]
            (request0 [(''currentPassword'', ''guess''), (''newPassword'', ''pw456'')]))
     = [ErrorResponse ''Password is incorrect'' (Some 404)]
   \<and> store (updatePassword env0 [alice, bob]
            (request0 [(''currentPassword'', ''guess''), (''newPassword'', ''pw456'')]))
     = [alice, bob]
   \<and> response (updatePassword env0 [alice, bob]
            (request0 [(''currentPassword'', ''guess''), (''newPassword'', ''pw456'')])) = None"
proof -
  let ?r = "request0 [(''currentPassword'', ''guess''), (''newPassword'', ''pw456'')]"
  have h1: "req_user ?r = Some alice"
    by (simp add: request0_def)
  have h2: "findById [alice, bob] (uid alice) = Some alice"
    by (simp add: findById_def)
  have h3: "matchPassword env0 alice (body ?r ''currentPassword'') = Inr False"
    by (simp add: env0_def request0_def alice_def)
  from updatePassword_wrong_current [OF h1 h2 h3]
  show ?thesis by simp
qed

text \<open>
  C7. With a positive validity window, every handler of the file preserves, at the instant
  of the request, that each stored token comes with an expiry in the future, and preserves
  unconditionally that the two reset fields are set or undefined together. A successful
  \<open>forgotPassword\<close> sets both fields of the user, overwriting whatever token was stored
  (a document has one token field); its send-failure path and a successful
  \<open>resetPassword\<close> clear both.
\<close>

theorem reset_fields_invariant:
  assumes window: "0 < resetWindow env"
  shows "(\<forall>h\<in>set operations.
            (list_all (resetFieldsPaired (now env)) st \<longrightarrow>
               list_all (resetFieldsPaired (now env)) (store (h env st req)))
          \<and> (list_all resetFieldsTogether st \<longrightarrow>
               list_all resetFieldsTogether (store (h env st req))))
       \<and> (\<forall>u resp. findOne_email st (body req ''email'') = Some u
                 \<and> response (forgotPassword env st req) = Some resp \<longrightarrow>
             findById (store (forgotPassword env st req)) (uid u)
               = Some (u\<lparr>passwordResetToken := Some (sha256hex env (randomToken env)),
                         passwordResetExpire := Some (now env + resetWindow env)\<rparr>))
       \<and> (\<forall>u. findOne_email st (body req ''email'') = Some u
                 \<and> response (forgotPassword env st req) = None \<longrightarrow>
             findById (store (forgotPassword env st req)) (uid u)
               = Some (u\<lparr>passwordResetToken := None, passwordResetExpire := None\<rparr>))
       \<and> (\<forall>u resp. findOne_resetToken st (sha256hex env (params_resettoken req)) (now env) = Some u
                 \<and> response (resetPassword env st req) = Some resp \<longrightarrow>
             findById (store (resetPassword env st req)) (uid u)
               = Some (u\<lparr>passwordResetToken := None, passwordResetExpire := None,
                         password := map_option (hashPassword env) (body req ''password'')\<rparr>))"
proof -
  have paired: "list_all (resetFieldsPaired (now env)) (store (h env st req))"
    if "h \<in> set operations" and "list_all (resetFieldsPaired (now env)) st" for h
  proof (rule operations_preserve [where P = "resetFieldsPaired (now env)"])
    show "resetFieldsPaired (now env) v"
      if "passwordResetToken u = passwordResetToken v"
        and "passwordResetExpire u = passwordResetExpire v"
        and "resetFieldsPaired (now env) u" for u v
      using that by (simp add: resetFieldsPaired_def split: option.splits)
    show "resetFieldsPaired (now env) u"
      if "passwordResetToken u = None" and "passwordResetExpire u = None" for u
      using that by (simp add: resetFieldsPaired_def)
    show "resetFieldsPaired (now env) u"
      if "passwordResetToken u = Some h'"
        and "passwordResetExpire u = Some (now env + resetWindow env)" for u h'
      using that window by (simp add: resetFieldsPaired_def)
  qed (use that in simp_all)
  have together: "list_all resetFieldsTogether (store (h env st req))"
    if "h \<in> set operations" and "list_all resetFieldsTogether st" for h
  proof (rule operations_preserve [where P = resetFieldsTogether])
    show "resetFieldsTogether v"
      if "passwordResetToken u = passwordResetToken v"
        and "passwordResetExpire u = passwordResetExpire v"
        and "resetFieldsTogether u" for u v
      using that by (simp add: resetFieldsTogether_def)
    show "resetFieldsTogether u"
      if "passwordResetToken u = None" and "passwordResetExpire u = None" for u
      using that by (simp add: resetFieldsTogether_def)
    show "resetFieldsTogether u"
      if "passwordResetToken u = Some h'"
        and "passwordResetExpire u = Some (now env + resetWindow env)" for u h'
      using that by (simp add: resetFieldsTogether_def)
  qed (use that in simp_all)
  show ?thesis
    using paired together forgotPassword_sets_both forgotPassword_clears_both
      resetPassword_clears_both
    by blast
qed

theorem reset_fields_invariant_witness:
  "list_all (resetFieldsPaired 1000)
     (store (forgotPassword env_delivering [alice, bob] (request0 [(''email'', ''a@x.com'')])))
   \<and> list_all resetFieldsTogether
     (store (forgotPassword env_delivering [alice, bob] (request0 [(''email'', ''a@x.com'')])))
   \<and> findById (store (forgotPassword env_delivering [alice, bob] (request0 [(''email'', ''a@x.com'')]))) 1
     = Some (alice\<lparr>passwordResetToken := Some ''sha:r4nd0m'', passwordResetExpire := Some 601000\<rparr>)
   \<and> findById (store (forgotPassword env0 [alice, bob] (request0 [(''email'', ''b@x.com'')]))) 2
     = Some (bob\<lparr>passwordResetToken := None, passwordResetExpire := None\<rparr>)
   \<and> findById (store (resetPassword env0 [alice, bob] (request0 [(''password'', ''newpw1'')]))) 2
     = Some (bob\<lparr>passwordResetToken := None, passwordResetExpire := None,
                 password := Some ''bc:newpw1''\<rparr>)"
proof -
  let ?ra = "request0 [(''email'', ''a@x.com'')]"
  let ?rb = "request0 [(''email'', ''b@x.com'')]"
  let ?rp = "request0 [(''password'', ''newpw1'')]"
  have window: "0 < resetWindow env_delivering" "0 < resetWindow env0"
    by (simp_all add: env_delivering_def env0_def)
  have op: "forgotPassword \<in> set operations"
    by (simp add: operations_def)
  have inv: "list_all (resetFieldsPaired (now env_delivering)) [alice, bob]"
    "list_all resetFieldsTogether [alice, bob]"
    by (simp_all add: resetFieldsPaired_def resetFieldsTogether_def env_delivering_def env0_def
          alice_def bob_def)
  have found_a: "findOne_email [alice, bob] (body ?ra ''email'') = Some alice"
    by (simp add: findOne_email_def request0_def alice_def)
  have ok_a: "response (forgotPassword env_delivering [alice, bob] ?ra)
              = Some \<lparr>status = 200, cookies = [], clearedCookies = [], success = True,
                      json = Data_string ''Email sent''\<rparr>"
    using found_a
    by (simp add: forgotPassword_def getResetPasswordToken_def flow_defs Let_def env_delivering_def)
  have found_b: "findOne_email [alice, bob] (body ?rb ''email'') = Some bob"
    by (simp add: findOne_email_def request0_def alice_def bob_def)
  have ko_b: "response (forgotPassword env0 [alice, bob] ?rb) = None"
    using found_b
    by (simp add: forgotPassword_def getResetPasswordToken_def flow_defs Let_def env0_def)
  have found_t: "findOne_resetToken [alice, bob] (sha256hex env0 (params_resettoken ?rp)) (now env0)
                   = Some bob"
    by (simp add: findOne_resetToken_def env0_def request0_def alice_def bob_def)
  have ok_t: "response (resetPassword env0 [alice, bob] ?rp)
     = Some (sendTokenResponse env0 (bob\<lparr>passwordResetToken := None, passwordResetExpire := None,
                        password := Some ''bc:newpw1''\<rparr>) 200)"
    by (simp add: resetPassword_bob responds_def)
  have vals: "now env_delivering = 1000" "resetWindow env_delivering = 600000"
    "sha256hex env_delivering (randomToken env_delivering) = ''sha:r4nd0m''"
    "uid alice = 1" "uid bob = 2"
    "map_option (hashPassword env0) (body ?rp ''password'') = Some ''bc:newpw1''"
    by (simp_all add: env_delivering_def env0_def alice_def bob_def request0_def)
  from reset_fields_invariant [OF window(1), of "[alice, bob]" ?ra] op inv found_a ok_a
  have a: "list_all (resetFieldsPaired (now env_delivering))
          (store (forgotPassword env_delivering [alice, bob] ?ra))
      \<and> list_all resetFieldsTogether (store (forgotPassword env_delivering [alice, bob] ?ra))
      \<and> findById (store (forgotPassword env_delivering [alice, bob] ?ra)) (uid alice)
        = Some (alice\<lparr>passwordResetToken := Some (sha256hex env_delivering (randomToken env_delivering)),
                       passwordResetExpire := Some (now env_delivering + resetWindow env_delivering)\<rparr>)"
    by blast
  from reset_fields_invariant [OF window(2), of "[alice, bob]" ?rb] found_b ko_b
  have b: "findById (store (forgotPassword env0 [alice, bob] ?rb)) (uid bob)
        = Some (bob\<lparr>passwordResetToken := None, passwordResetExpire := None\<rparr>)"
    by blast
  from reset_fields_invariant [OF window(2), of "[alice, bob]" ?rp] found_t ok_t
  have c: "findById (store (resetPassword env0 [alice, bob] ?rp)) (uid bob)
        = Some (bob\<lparr>passwordResetToken := None, passwordResetExpire := None,
                     password := map_option (hashPassword env0) (body ?rp ''password'')\<rparr>)"
    by blast
  show ?thesis
    using a b c by (simp add: vals)
qed




text \<open>
  C9. \<open>register\<close> makes one call, \<^verbatim>\<open>User.create\<close>, with the four fields of the request
  body as they are; the role is passed unmodified, whatever it is, and when the
  registration succeeds the document added to the collection carries that role.
\<close>

theorem register_role_passthrough:
  "calls (register env st req)
     = [Create \<lparr>c_name = body req ''name'', c_email = body req ''email'',
                c_password = body req ''password'', c_role = body req ''role''\<rparr>]
   \<and> (\<forall>resp. response (register env st req) = Some resp \<longrightarrow>
        (\<exists>usr. store (register env st req) = st @ [usr] \<and> role usr = body req ''role''))"
  by (auto simp add: register_def flow_defs Let_def User_create_def split: sum.splits prod.splits if_splits)

theorem register_role_passthrough_witness:
  "calls (register env0 [alice]
      (request0 [(''name'', ''Dan''), (''email'', ''d@x.com''), (''password'', ''pw789''), (''role'', ''admin'')]))
     = [Create \<lparr>c_name = Some ''Dan'', c_email = Some ''d@x.com'',
                c_password = Some ''pw789'', c_role = Some ''admin''\<rparr>]
   \<and> response (register env0 [alice]
      (request0 [(''name'', ''Dan''), (''email'', ''d@x.com''), (''password'', ''pw789''), (''role'', ''admin'')]))
     \<noteq> None
   \<and> role (last (store (register env0 [alice]
      (request0 [(''name'', ''Dan''), (''email'', ''d@x.com''), (''password'', ''pw789''), (''role'', ''admin'')]))))
     = Some ''admin''"
proof -
  let ?r = "request0 [(''name'', ''Dan''), (''email'', ''d@x.com''), (''password'', ''pw789''), (''role'', ''admin'')]"
  let ?dan = "\<lparr>uid = 2, name = Some ''Dan'', email = Some ''d@x.com'',
               password = Some ''bc:pw789'', role = Some ''admin'',
               passwordResetToken = None, passwordResetExpire = None\<rparr>"
  have ok: "response (register env0 [alice] ?r) = Some (sendTokenResponse env0 ?dan 200)"
    by (simp add: register_def User_create_def fresh_id_alice flow_defs Let_def
          env0_simps request0_def) (simp add: alice_def)
  have fields: "body ?r ''name'' = Some ''Dan''" "body ?r ''email'' = Some ''d@x.com''"
    "body ?r ''password'' = Some ''pw789''" "body ?r ''role'' = Some ''admin''"
    by (simp_all add: request0_def)
  from register_role_passthrough [of env0 "[alice]" ?r] ok
  obtain usr where "calls (register env0 [alice] ?r)
     = [Create \<lparr>c_name = body ?r ''name'', c_email = body ?r ''email'',
                c_password = body ?r ''password'', c_role = body ?r ''role''\<rparr>]"
    and "store (register env0 [alice] ?r) = [alice] @ [usr]" and "role usr = body ?r ''role''"
    by blast
  then show ?thesis
    by (simp add: fields ok)
qed

text \<open>
  C10. A login request in which the email or the password is absent (or empty) fails
  before any lookup with \<open>Please provide both email and password\<close>, an error built
  without a status code. Every other error that a handler of the file builds carries a
  status code: with both fields present, login hands \<^verbatim>\<open>next\<close> only errors with a status,
  and so do the other seven handlers on every request.
\<close>

theorem login_missing_field:
  "(falsy (body req ''email'') \<or> falsy (body req ''password'') \<longrightarrow>
      nexts (login env st req) = [ErrorResponse ''Please provide both email and password'' None]
      \<and> calls (login env st req) = []
      \<and> store (login env st req) = st
      \<and> response (login env st req) = None)
   \<and> (\<not> falsy (body req ''email'') \<and> \<not> falsy (body req ''password'') \<longrightarrow>
      list_all hasStatusCode (nexts (login env st req)))
   \<and> list_all hasStatusCode (nexts (register env st req))
   \<and> list_all hasStatusCode (nexts (getMe env st req))
   \<and> list_all hasStatusCode (nexts (logout env st req))
   \<and> list_all hasStatusCode (nexts (forgotPassword env st req))
   \<and> list_all hasStatusCode (nexts (resetPassword env st req))
   \<and> list_all hasStatusCode (nexts (updateDetails env st req))
   \<and> list_all hasStatusCode (nexts (updatePassword env st req))"
proof -
  have absent: "falsy (body req ''email'') \<or> falsy (body req ''password'') \<Longrightarrow>
      login env st req = next_err st [] (ErrorResponse ''Please provide both email and password'' None)"
    by (simp add: login_def flow_defs Let_def)
  show ?thesis
    using absent login_nexts_status [of req env st]
    by (auto simp add: next_err_def register_nexts_status getMe_nexts_status
          logout_nexts_status forgotPassword_nexts_status resetPassword_nexts_status
          updateDetails_nexts_status updatePassword_nexts_status)
qed

theorem login_missing_field_witness:
  "nexts (login env0 [alice] (request0 [(''email'', ''a@x.com'')]))
     = [ErrorResponse ''Please provide both email and password'' None]
   \<and> calls (login env0 [alice] (request0 [(''email'', ''a@x.com'')])) = []
   \<and> \<not> hasStatusCode (ErrorResponse ''Please provide both email and password'' None)
   \<and> list_all hasStatusCode
        (nexts (login env0 [alice] (request0 [(''email'', ''a@x.com''), (''password'', ''wrong'')])))"
proof -
  have h: "falsy (body (request0 [(''email'', ''a@x.com'')]) ''password'')"
    by (simp add: request0_def falsy_def)
  have p: "\<not> falsy (body (request0 [(''email'', ''a@x.com''), (''password'', ''wrong'')]) ''email'')
         \<and> \<not> falsy (body (request0 [(''email'', ''a@x.com''), (''password'', ''wrong'')]) ''password'')"
    by (simp add: request0_def falsy_def)
  show ?thesis
    using h p login_missing_field [of "request0 [(''email'', ''a@x.com'')]" env0 "[alice]"]
      login_missing_field [of "request0 [(''email'', ''a@x.com''), (''password'', ''wrong'')]" env0 "[alice]"]
    by (simp add: hasStatusCode_def)
qed

end
